theory Spec2Isabelle
  imports Complex_Main
begin

section \<open>Python values shared by the modules\<close>

text \<open>
  Exceptions are values. \<open>KeyError\<close> carries its message; \<open>TypeError\<close> and
  \<open>ValueError\<close> are raised by the library calls the code makes; \<open>Raised\<close>
  stands for any other exception that an objective function or a backend lets escape.
\<close>

datatype error = KeyError string | TypeError | ValueError | Raised string

text \<open>
  A Python \<open>dict\<close> keeps its keys in insertion order and holds each key once. It is an
  association list here: \<open>dict_set\<close> is \<open>d[k] = v\<close> (an existing key keeps its
  position, a new key goes last), \<open>dict_get\<close> is \<open>d.get(k, default)\<close>,
  \<open>dict_keys\<close> is \<open>d.keys()\<close> and \<open>dict_of_pairs\<close> is \<open>dict(pairs)\<close>.
\<close>

type_synonym ('k, 'a) pydict = "('k \<times> 'a) list"

fun dict_set :: "('k, 'a) pydict \<Rightarrow> 'k \<Rightarrow> 'a \<Rightarrow> ('k, 'a) pydict" where
  "dict_set [] k v = [(k, v)]"
| "dict_set ((k', v') # d) k v = (if k' = k then (k, v) # d else (k', v') # dict_set d k v)"

definition dict_get :: "('k, 'a) pydict \<Rightarrow> 'k \<Rightarrow> 'a \<Rightarrow> 'a" where
  "dict_get d k dflt = (case map_of d k of None \<Rightarrow> dflt | Some v \<Rightarrow> v)"

definition dict_keys :: "('k, 'a) pydict \<Rightarrow> 'k list" where
  "dict_keys d = map fst d"

definition dict_of_pairs :: "('k \<times> 'a) list \<Rightarrow> ('k, 'a) pydict" where
  "dict_of_pairs kvs = fold (\<lambda>(k, v) d. dict_set d k v) kvs []"

section \<open>Nested parameter mappings and their flat form\<close>

text \<open>
  A nested parameter mapping is a dict whose values are scalars or nested mappings again.
  The leaf type is a parameter: the parameters carry numbers, the bounds carry
  \<open>(lower, upper)\<close> pairs.
\<close>

datatype 'a nested = Leaf 'a | Dict "(string \<times> 'a nested) list"

type_synonym 'a params = "(string, 'a nested) pydict"

type_synonym path = "string list"

type_synonym 'a flat = "(path, 'a) pydict"

text \<open>
  Modelled from the spec: \<open>flatten_dict\<close> and \<open>unflatten_dict\<close> are imported by
  \<open>fitter.py\<close> from the package \<open>pydictnest\<close>, which is not among the sources. The
  spec gives \<open>flatten\<close> as a depth-first traversal producing one entry per scalar leaf,
  keyed by the path segments that lead to the leaf, in traversal order, and \<open>unflatten\<close>
  as its inverse on the key sets \<open>flatten\<close> produces. A flat key is the list of path
  segments; how the package writes that list as one string is not modelled.
\<close>

function flatten_dict :: "'a params \<Rightarrow> 'a flat" where
  "flatten_dict [] = []"
| "flatten_dict ((k, Leaf v) # kvs) = ([k], v) # flatten_dict kvs"
| "flatten_dict ((k, Dict s) # kvs) =
     map (\<lambda>(p, v). (k # p, v)) (flatten_dict s) @ flatten_dict kvs"
  by pat_completeness auto
termination
  by (relation "measure (size_list (size_prod (\<lambda>_. 0) size))") auto

text \<open>
  Modelled from the spec: \<open>set_nested_item d p v\<close> stores \<open>v\<close> under the path \<open>p\<close>,
  creating the mappings on the way; \<open>unflatten_dict\<close> stores the entries of the flat
  dict one after the other into an empty mapping. On keys that \<open>flatten\<close> cannot
  produce (an empty path, a path that runs through a scalar) the spec says nothing; the
  model then leaves the mapping alone, respectively replaces the scalar.
\<close>

definition sub_dict :: "'a params \<Rightarrow> string \<Rightarrow> 'a params" where
  "sub_dict d k = (case map_of d k of Some (Dict s) \<Rightarrow> s | _ \<Rightarrow> [])"

fun set_nested_item :: "'a params \<Rightarrow> path \<Rightarrow> 'a \<Rightarrow> 'a params" where
  "set_nested_item d [] v = d"
| "set_nested_item d [k] v = dict_set d k (Leaf v)"
| "set_nested_item d (k # k' # ks) v = dict_set d k (Dict (set_nested_item (sub_dict d k) (k' # ks) v))"

definition unflatten_dict :: "'a flat \<Rightarrow> 'a params" where
  "unflatten_dict fl = fold (\<lambda>(p, v) d. set_nested_item d p v) fl []"

text \<open>
  The nested mappings of the data model: every dict holds each key once, and every leaf
  of the tree is a scalar, so no mapping below the top is empty (an empty mapping would
  be a leaf that is no scalar). The top mapping itself may be empty.
\<close>

fun valid_params :: "'a params \<Rightarrow> bool" where
  "valid_params [] = True"
| "valid_params ((k, Leaf v) # kvs) = (k \<notin> fst ` set kvs \<and> valid_params kvs)"
| "valid_params ((k, Dict s) # kvs) =
     (s \<noteq> [] \<and> valid_params s \<and> k \<notin> fst ` set kvs \<and> valid_params kvs)"

text \<open>
  The invariant of the dict type alone, at every level: each key once.
\<close>

fun unique_keys :: "'a params \<Rightarrow> bool" where
  "unique_keys [] = True"
| "unique_keys ((k, Leaf v) # kvs) = (k \<notin> fst ` set kvs \<and> unique_keys kvs)"
| "unique_keys ((k, Dict s) # kvs) = (unique_keys s \<and> k \<notin> fst ` set kvs \<and> unique_keys kvs)"


section \<open>fitter.py\<close>

text \<open>
  What the fitter writes to its logger: the level and the message of each record, in the
  order of the calls. The elapsed time of the last message is a reading of the wall clock
  and is left out of the record.
\<close>

type_synonym 'a bound = "'a option \<times> 'a option"

datatype level = INFO | WARNING

datatype 'a message =
    Start_fitting
  | Initial_parameters "'a params"
  | Bounds "'a bound params"
  | Initial_obj_func 'a
  | Fit_did_not_converge string
  | End_fitting
  | Final_objective_function 'a
  | Optimal_parameters "'a params"
  | Time_taken

type_synonym 'a log = "(level \<times> 'a message) list"

text \<open>
  The objective function is any callable from a parameter dict to a number. It may raise,
  and it may change the world outside the fitter (the model instance it evaluates), so it
  takes that world \<open>'w\<close> and returns it.
\<close>

type_synonym ('a, 'w) objective = "'a params \<Rightarrow> 'w \<Rightarrow> (error + 'a) \<times> 'w"

record ('a, 'w) fitter =
  objective_function :: "('a, 'w) objective"
  initial_parameters :: "'a params"
  bounds :: "'a bound params"

definition Fitter_init ::
  "('a, 'w) objective \<Rightarrow> 'a params \<Rightarrow> 'a bound params option \<Rightarrow> ('a, 'w) fitter" where
  "Fitter_init f init b =
     \<lparr>objective_function = f, initial_parameters = init,
      bounds = (case b of None \<Rightarrow> [] | Some b' \<Rightarrow> b')\<rparr>"

text \<open>
  The state of a fit call: the records logged so far and the outside world.
\<close>

type_synonym ('a, 'w) fit_state = "'a log \<times> 'w"

definition info :: "'a message \<Rightarrow> ('a, 'w) fit_state \<Rightarrow> ('a, 'w) fit_state" where
  "info m st = (fst st @ [(INFO, m)], snd st)"

definition warning :: "'a message \<Rightarrow> ('a, 'w) fit_state \<Rightarrow> ('a, 'w) fit_state" where
  "warning m st = (fst st @ [(WARNING, m)], snd st)"

definition hook_pre_fit ::
  "('a, 'w) fitter \<Rightarrow> ('a, 'w) fit_state \<Rightarrow> (error + unit) \<times> ('a, 'w) fit_state" where
  "hook_pre_fit self st =
     (let st1 = info Start_fitting st;
          st2 = info (Initial_parameters (initial_parameters self)) st1;
          st3 = info (Bounds (bounds self)) st2
      in case objective_function self (initial_parameters self) (snd st3) of
           (Inl e, w) \<Rightarrow> (Inl e, (fst st3, w))
         | (Inr ob_init, w) \<Rightarrow> (Inr (), info (Initial_obj_func ob_init) (fst st3, w)))"

definition hook_post_fit ::
  "('a, 'w) fitter \<Rightarrow> 'a params \<Rightarrow> ('a, 'w) fit_state \<Rightarrow> (error + unit) \<times> ('a, 'w) fit_state" where
  "hook_post_fit self opt_params st =
     (let st1 = info End_fitting st
      in case objective_function self opt_params (snd st1) of
           (Inl e, w) \<Rightarrow> (Inl e, (fst st1, w))
         | (Inr ob, w) \<Rightarrow>
             (Inr (), info Time_taken
                        (info (Optimal_parameters opt_params)
                           (info (Final_objective_function ob) (fst st1, w)))))"

text \<open>
  \<open>scipy.optimize.minimize\<close> is outside the sources and is a parameter of the model: a
  backend takes the function of the flat vector, the start vector and the bounds, calls
  the function as often as it likes (so it owns the outside world while it runs) and
  returns a result object, of which the fitter reads \<open>success\<close>, \<open>message\<close> and \<open>x\<close>.
  The keyword arguments that \<open>fit_scipy\<close> forwards untouched are part of the backend.
\<close>

record 'a optimize_result =
  res_success :: bool
  res_message :: string
  res_x :: "'a list"

type_synonym ('a, 'w) flat_objective = "'a list \<Rightarrow> 'w \<Rightarrow> (error + 'a) \<times> 'w"

type_synonym ('a, 'w) backend =
  "('a, 'w) flat_objective \<Rightarrow> 'a list \<Rightarrow> 'a bound list option \<Rightarrow> 'w
     \<Rightarrow> (error + 'a optimize_result) \<times> 'w"

text \<open>
  The pieces of \<open>fit_scipy\<close>, in the order of the source. The key view that the
  source keeps in \<open>self._keys\<close> is the list \<open>keys\<close>. \<open>getitems d ks\<close> is
  \<open>[d[k] for k in ks]\<close>, which raises \<open>KeyError\<close> at the first missing key; in
  \<open>fit_scipy\<close> the keys are those of the dict itself, so that branch is never taken
  on a dict (its message is left empty). The bounds array is replaced by \<open>None\<close> when
  it is empty. The wall-clock readings of the two hooks are not modelled.
\<close>

fun getitems :: "('k, 'a) pydict \<Rightarrow> 'k list \<Rightarrow> 'a list option" where
  "getitems d [] = Some []"
| "getitems d (k # ks) =
     (case map_of d k of
        None \<Rightarrow> None
      | Some v \<Rightarrow> (case getitems d ks of None \<Rightarrow> None | Some vs \<Rightarrow> Some (v # vs)))"

definition scipy_bounds :: "'a bound flat \<Rightarrow> path list \<Rightarrow> 'a bound list option" where
  "scipy_bounds flat_bounds keys =
     (let bnds = map (\<lambda>k. dict_get flat_bounds k (None, None)) keys
      in if length bnds = 0 then None else Some bnds)"

definition f_scipy :: "('a, 'w) fitter \<Rightarrow> path list \<Rightarrow> ('a, 'w) flat_objective" where
  "f_scipy self keys x =
     (let p = unflatten_dict (dict_of_pairs (zip keys x)) in objective_function self p)"

definition fit_scipy ::
  "('a, 'w) fitter \<Rightarrow> ('a, 'w) backend \<Rightarrow> ('a, 'w) fit_state
     \<Rightarrow> (error + 'a params) \<times> ('a, 'w) fit_state" where
  "fit_scipy self minimize st =
     (case hook_pre_fit self st of
        (Inl e, st1) \<Rightarrow> (Inl e, st1)
      | (Inr u, st1) \<Rightarrow>
          let flat_params = flatten_dict (initial_parameters self);
              flat_bounds = flatten_dict (bounds self);
              keys = dict_keys flat_params
          in case getitems flat_params keys of
               None \<Rightarrow> (Inl (KeyError []), st1)
             | Some x0 \<Rightarrow>
                 (case minimize (f_scipy self keys) x0 (scipy_bounds flat_bounds keys) (snd st1) of
                    (Inl e, w) \<Rightarrow> (Inl e, (fst st1, w))
                  | (Inr res, w) \<Rightarrow>
                      let st2 = (if \<not> res_success res
                                 then warning (Fit_did_not_converge (res_message res)) (fst st1, w)
                                 else (fst st1, w));
                          opt_params = unflatten_dict (dict_of_pairs (zip keys (res_x res)))
                      in case hook_post_fit self opt_params st2 of
                           (Inl e, st3) \<Rightarrow> (Inl e, st3)
                         | (Inr u', st3) \<Rightarrow> (Inr opt_params, st3)))"

section \<open>scme_objective_function.py\<close>

text \<open>
  \<open>SCMEParameterApplier.__call__\<close> assigns to attributes of \<open>atoms.calc.scme\<close>. That
  object is its attribute table here: \<open>hasattr\<close> asks whether a name is in the table,
  \<open>setattr\<close> stores a value under it. The loop goes through \<open>params.items()\<close> in
  insertion order and raises \<open>KeyError\<close> at the first name that is no attribute.
\<close>

type_synonym 'a scme = "string \<rightharpoonup> 'a"

definition hasattr :: "'a scme \<Rightarrow> string \<Rightarrow> bool" where
  "hasattr obj name = (obj name \<noteq> None)"

definition setattr :: "'a scme \<Rightarrow> string \<Rightarrow> 'a \<Rightarrow> 'a scme" where
  "setattr obj name v = obj(name \<mapsto> v)"

definition cannot_set_parameter :: "string \<Rightarrow> string" where
  "cannot_set_parameter key =
     ''Cannot set parameter '' @ [CHR 0x27] @ key @ [CHR 0x27] @
     '': not a valid attribute on the SCME potential.''"

fun SCMEParameterApplier_call ::
  "(string, 'a) pydict \<Rightarrow> 'a scme \<Rightarrow> (error + unit) \<times> 'a scme" where
  "SCMEParameterApplier_call [] scme = (Inr (), scme)"
| "SCMEParameterApplier_call ((key, v) # rest) scme =
     (if hasattr scme key
      then SCMEParameterApplier_call rest (setattr scme key v)
      else (Inl (KeyError (cannot_set_parameter key)), scme))"


section \<open>Paths\<close>

text \<open>
  A \<open>pathlib\<close> path: whether it starts at the root, and its components after the
  root. \<open>name\<close> is the last component (empty when there is none), \<open>parent\<close> drops
  it, \<open>joinpath base q\<close> is \<open>base / q\<close> (an absolute \<open>q\<close> replaces \<open>base\<close>), and
  \<open>with_name\<close> replaces the last component, raising \<open>ValueError\<close> when the path has
  no name or the new name is empty, is \<open>.\<close> or holds a separator. Turning a string
  into a path, and \<open>resolve\<close> and \<open>exists\<close>, which ask the file system, are
  parameters of the functions that use them.
\<close>

record ppath =
  is_absolute :: bool
  components :: "string list"

definition name :: "ppath \<Rightarrow> string" where
  "name p = (if components p = [] then [] else last (components p))"

definition parent :: "ppath \<Rightarrow> ppath" where
  "parent p = p\<lparr>components := butlast (components p)\<rparr>"

definition joinpath :: "ppath \<Rightarrow> ppath \<Rightarrow> ppath" where
  "joinpath base q =
     (if is_absolute q then q
      else \<lparr>is_absolute = is_absolute base, components = components base @ components q\<rparr>)"


section \<open>data_utils.py\<close>

text \<open>
  What \<open>pd.read_csv\<close> returns: the column names and the rows, a row giving the cell of
  each column. A cell is a string or a number. \<open>df[c]\<close> is the column \<open>c\<close> from the
  first row to the last and raises \<open>KeyError\<close> when there is no such column.
\<close>

datatype cell = Str string | Num real

record dataframe =
  columns :: "string list"
  rows :: "(string \<Rightarrow> cell) list"

definition getcol :: "dataframe \<Rightarrow> string \<Rightarrow> error + cell list" where
  "getcol df c = (if c \<in> set (columns df) then Inr (map (\<lambda>r. r c) (rows df)) else Inl (KeyError c))"

text \<open>
  \<open>Path(p)\<close> takes a string (\<open>to_path\<close> is \<open>pathlib\<close>'s reading of it) and raises
  \<open>TypeError\<close> on a number. \<open>collect f xs\<close> is the list comprehension
  \<open>[f(x) for x in xs]\<close>, which stops at the first element on which \<open>f\<close> raises.
\<close>

fun Path :: "(string \<Rightarrow> ppath) \<Rightarrow> cell \<Rightarrow> error + ppath" where
  "Path to_path (Str s) = Inr (to_path s)"
| "Path to_path (Num x) = Inl TypeError"

fun collect :: "('a \<Rightarrow> error + 'b) \<Rightarrow> 'a list \<Rightarrow> error + 'b list" where
  "collect f [] = Inr []"
| "collect f (x # xs) =
     (case f x of
        Inl e \<Rightarrow> Inl e
      | Inr y \<Rightarrow> (case collect f xs of Inl e \<Rightarrow> Inl e | Inr ys \<Rightarrow> Inr (y # ys)))"

definition process_csv ::
  "(string \<Rightarrow> ppath) \<Rightarrow> (ppath \<Rightarrow> ppath) \<Rightarrow> (ppath \<Rightarrow> error + dataframe) \<Rightarrow> ppath
     \<Rightarrow> error + (ppath list \<times> cell list \<times> cell list)" where
  "process_csv to_path resolve read_csv path_to_csv =
     (case read_csv path_to_csv of
        Inl e \<Rightarrow> Inl e
      | Inr df \<Rightarrow>
          (case (if ''path'' \<in> set (columns df)
                 then (case getcol df ''path'' of
                         Inl e \<Rightarrow> Inl e
                       | Inr col \<Rightarrow> collect (Path to_path) col)
                 else (let base = resolve (parent path_to_csv)
                       in case getcol df ''file'' of
                            Inl e \<Rightarrow> Inl e
                          | Inr col \<Rightarrow>
                              collect (\<lambda>fname. case Path to_path fname of
                                                  Inl e \<Rightarrow> Inl e
                                                | Inr q \<Rightarrow> Inr (joinpath base q)) col)) of
             Inl e \<Rightarrow> Inl e
           | Inr paths \<Rightarrow>
               (case getcol df ''tag'' of
                  Inl e \<Rightarrow> Inl e
                | Inr tags \<Rightarrow>
                    (case getcol df ''reference_energy'' of
                       Inl e \<Rightarrow> Inl e
                     | Inr energies \<Rightarrow> Inr (paths, tags, energies)))))"

section \<open>utils.py\<close>







section \<open>Reordering a fit\<close>









section \<open>Lemmas\<close>

lemma dict_set_append: "k \<notin> fst ` set d \<Longrightarrow> dict_set d k v = d @ [(k, v)]"
  by (induction d) auto

lemma dict_set_idem: "dict_set (dict_set d k a) k b = dict_set d k b"
  by (induction d) auto

lemma map_of_dict_set: "map_of (dict_set d k v) = (map_of d)(k \<mapsto> v)"
  by (induction d) (auto simp: fun_eq_iff)

lemma fold_dict_set_distinct:
  "distinct (map fst kvs) \<Longrightarrow> fst ` set kvs \<inter> fst ` set acc = {} \<Longrightarrow>
   fold (\<lambda>(k, v) d. dict_set d k v) kvs acc = acc @ kvs"
proof (induction kvs arbitrary: acc)
  case Nil
  then show ?case by simp
next
  case (Cons e kvs)
  obtain k v where e: "e = (k, v)" by (cases e)
  have "dict_set acc k v = acc @ [(k, v)]"
    using Cons.prems e by (intro dict_set_append) auto
  moreover have "fold (\<lambda>(k, v) d. dict_set d k v) kvs (acc @ [(k, v)]) = (acc @ [(k, v)]) @ kvs"
    using Cons.prems e by (intro Cons.IH) (auto simp: image_iff)
  ultimately show ?case by (simp add: e)
qed

lemma dict_of_pairs_distinct: "distinct (map fst kvs) \<Longrightarrow> dict_of_pairs kvs = kvs"
  using fold_dict_set_distinct[of kvs "[]"] by (simp add: dict_of_pairs_def)


lemma flatten_heads: "(p, v) \<in> set (flatten_dict d) \<Longrightarrow> p \<noteq> [] \<and> hd p \<in> fst ` set d"
  by (induction d arbitrary: p v rule: flatten_dict.induct) (auto simp: image_iff)

lemma valid_unique_keys: "valid_params d \<Longrightarrow> unique_keys d"
  by (induction d rule: flatten_dict.induct) auto

lemma flatten_distinct: "unique_keys d \<Longrightarrow> distinct (map fst (flatten_dict d))"
proof (induction d rule: flatten_dict.induct)
  case 1
  then show ?case by simp
next
  case (2 k v kvs)
  then show ?case using flatten_heads[of "[k]" _ kvs] by (auto simp: image_iff)
next
  case (3 k s kvs)
  have "distinct (map fst (map (\<lambda>(p, v). (k # p, v)) (flatten_dict s)))"
    using 3 by (simp add: distinct_map comp_def case_prod_unfold inj_on_def)
  moreover have "fst ` set (map (\<lambda>(p, v). (k # p, v)) (flatten_dict s)) \<inter> fst ` set (flatten_dict kvs) = {}"
    using 3 flatten_heads[of _ _ kvs] by (fastforce simp: image_iff)
  ultimately show ?case using 3 by (simp del: map_map)
qed

lemma getitems_all: "distinct (map fst d) \<Longrightarrow> set ks \<subseteq> fst ` set d \<Longrightarrow>
   getitems d ks = Some (map (\<lambda>k. the (map_of d k)) ks)"
  by (induction ks) (auto simp: image_iff split: option.splits)

lemma getitems_keys: "distinct (map fst d) \<Longrightarrow> getitems d (map fst d) = Some (map snd d)"
proof -
  assume d: "distinct (map fst d)"
  then have "getitems d (map fst d) = Some (map (\<lambda>k. the (map_of d k)) (map fst d))"
    by (intro getitems_all) auto
  moreover have "map (\<lambda>k. the (map_of d k)) (map fst d) = map snd d"
    using d by (auto simp: map_eq_conv)
  ultimately show ?thesis by simp
qed

lemma sub_dict_dict_set: "sub_dict (dict_set d k (Dict s)) k = s"
  by (simp add: sub_dict_def map_of_dict_set)

lemma sub_dict_fresh: "k \<notin> fst ` set d \<Longrightarrow> sub_dict d k = []"
  by (simp add: sub_dict_def map_of_eq_None_iff[THEN iffD2])

lemma flatten_paths_nonempty: "(p, v) \<in> set (flatten_dict d) \<Longrightarrow> p \<noteq> []"
  by (induction d rule: flatten_dict.induct) auto

lemma flatten_nonempty: "valid_params d \<Longrightarrow> d \<noteq> [] \<Longrightarrow> flatten_dict d \<noteq> []"
  by (induction d rule: flatten_dict.induct) auto

lemma fold_set_nested_under:
  "fl \<noteq> [] \<Longrightarrow> \<forall>(p, v) \<in> set fl. p \<noteq> [] \<Longrightarrow>
   fold (\<lambda>(p, v) d. set_nested_item d p v) (map (\<lambda>(p, v). (k # p, v)) fl) acc =
   dict_set acc k (Dict (fold (\<lambda>(p, v) d. set_nested_item d p v) fl (sub_dict acc k)))"
proof (induction fl arbitrary: acc)
  case Nil
  then show ?case by simp
next
  case (Cons e fl)
  obtain p v where e: "e = (p, v)" by (cases e)
  from Cons.prems e obtain q qs where p: "p = q # qs" by (cases p) auto
  show ?case
  proof (cases "fl = []")
    case True
    then show ?thesis by (simp add: e p)
  next
    case False
    with Cons show ?thesis
      by (simp add: e p dict_set_idem sub_dict_dict_set)
  qed
qed

lemma fold_flatten:
  "valid_params d \<Longrightarrow> fst ` set d \<inter> fst ` set acc = {} \<Longrightarrow>
   fold (\<lambda>(p, v) d. set_nested_item d p v) (flatten_dict d) acc = acc @ d"
proof (induction d arbitrary: acc rule: flatten_dict.induct)
  case 1
  then show ?case by simp
next
  case (2 k v kvs)
  then show ?case by (auto simp: dict_set_append)
next
  case (3 k s kvs)
  have "flatten_dict s \<noteq> []" using 3 by (simp add: flatten_nonempty)
  moreover have "\<forall>(p, v) \<in> set (flatten_dict s). p \<noteq> []"
    using flatten_paths_nonempty by fastforce
  ultimately have "fold (\<lambda>(p, v) d. set_nested_item d p v) (map (\<lambda>(p, v). (k # p, v)) (flatten_dict s)) acc
      = dict_set acc k (Dict (fold (\<lambda>(p, v) d. set_nested_item d p v) (flatten_dict s) (sub_dict acc k)))"
    by (rule fold_set_nested_under)
  also have "sub_dict acc k = []" using 3 by (auto intro: sub_dict_fresh)
  also have "fold (\<lambda>(p, v) d. set_nested_item d p v) (flatten_dict s) [] = [] @ s"
    using 3 by (intro "3.IH"(1)) auto
  also have "dict_set acc k (Dict ([] @ s)) = acc @ [(k, Dict s)]"
    using 3 by (auto simp: dict_set_append)
  finally show ?case using 3 by (auto)
qed

lemma unflatten_flatten_id: "valid_params d \<Longrightarrow> unflatten_dict (flatten_dict d) = d"
  using fold_flatten[of d "[]"] by (simp add: unflatten_dict_def)



lemma zip_keys_values: "zip (map fst d) (map snd d) = d"
  by (induction d) auto

lemma hook_pre_fit_ok:
  "objective_function self (initial_parameters self) w = (Inr ob, w') \<Longrightarrow>
   hook_pre_fit self (lg, w) =
     (Inr (), (lg @ [(INFO, Start_fitting), (INFO, Initial_parameters (initial_parameters self)),
                     (INFO, Bounds (bounds self)), (INFO, Initial_obj_func ob)], w'))"
  by (simp add: hook_pre_fit_def info_def)


lemma hook_post_fit_ok:
  "objective_function self opt w = (Inr ob, w') \<Longrightarrow>
   hook_post_fit self opt (lg, w) =
     (Inr (), (lg @ [(INFO, End_fitting), (INFO, Final_objective_function ob),
                     (INFO, Optimal_parameters opt), (INFO, Time_taken)], w'))"
  by (simp add: hook_post_fit_def info_def)

lemma hook_post_fit_err:
  "objective_function self opt w = (Inl e, w') \<Longrightarrow>
   hook_post_fit self opt (lg, w) = (Inl e, (lg @ [(INFO, End_fitting)], w'))"
  by (simp add: hook_post_fit_def info_def)

lemma fit_scipy_unfold:
  assumes "unique_keys (initial_parameters self)"
  shows "fit_scipy self minimize st =
     (case hook_pre_fit self st of
        (Inl e, st1) \<Rightarrow> (Inl e, st1)
      | (Inr u, st1) \<Rightarrow>
          (case minimize (f_scipy self (dict_keys (flatten_dict (initial_parameters self))))
                  (map snd (flatten_dict (initial_parameters self)))
                  (scipy_bounds (flatten_dict (bounds self))
                     (dict_keys (flatten_dict (initial_parameters self)))) (snd st1) of
             (Inl e, w) \<Rightarrow> (Inl e, (fst st1, w))
           | (Inr res, w) \<Rightarrow>
               (case hook_post_fit self
                       (unflatten_dict (dict_of_pairs
                          (zip (dict_keys (flatten_dict (initial_parameters self))) (res_x res))))
                       (if \<not> res_success res
                        then warning (Fit_did_not_converge (res_message res)) (fst st1, w)
                        else (fst st1, w)) of
                  (Inl e, st3) \<Rightarrow> (Inl e, st3)
                | (Inr u', st3) \<Rightarrow>
                    (Inr (unflatten_dict (dict_of_pairs
                          (zip (dict_keys (flatten_dict (initial_parameters self))) (res_x res)))),
                     st3))))"
proof -
  have "getitems (flatten_dict (initial_parameters self))
          (dict_keys (flatten_dict (initial_parameters self)))
        = Some (map snd (flatten_dict (initial_parameters self)))"
    using flatten_distinct[OF assms] by (simp add: dict_keys_def getitems_keys)
  then show ?thesis
    by (simp add: fit_scipy_def Let_def split: prod.splits sum.splits)
qed

lemma scipy_bounds_Some:
  "keys \<noteq> [] \<Longrightarrow> scipy_bounds fb keys = Some (map (\<lambda>k. dict_get fb k (None, None)) keys)"
  by (simp add: scipy_bounds_def)

lemma scipy_bounds_cong:
  "\<forall>k \<in> set keys. map_of fb' k = map_of fb k \<Longrightarrow> scipy_bounds fb' keys = scipy_bounds fb keys"
  by (simp add: scipy_bounds_def dict_get_def)

lemma f_scipy_bounds_irrelevant: "f_scipy (self\<lparr>bounds := B\<rparr>) = f_scipy self"
  by (simp add: f_scipy_def fun_eq_iff)

lemma hook_pre_fit_bounds:
  "fst (hook_pre_fit (self\<lparr>bounds := B\<rparr>) (lg, w)) = fst (hook_pre_fit self (lg', w)) \<and>
   snd (snd (hook_pre_fit (self\<lparr>bounds := B\<rparr>) (lg, w))) = snd (snd (hook_pre_fit self (lg', w)))"
  by (simp add: hook_pre_fit_def info_def Let_def split: prod.splits sum.splits)

lemma hook_post_fit_bounds:
  "fst (hook_post_fit (self\<lparr>bounds := B\<rparr>) opt (lg, w)) = fst (hook_post_fit self opt (lg', w)) \<and>
   snd (snd (hook_post_fit (self\<lparr>bounds := B\<rparr>) opt (lg, w))) = snd (snd (hook_post_fit self opt (lg', w)))"
  by (simp add: hook_post_fit_def info_def Let_def split: prod.splits sum.splits)

lemma finish_cong:
  "fst h = fst h' \<Longrightarrow> snd (snd h) = snd (snd h') \<Longrightarrow>
   fst (case h of (Inl e, st3) \<Rightarrow> (Inl e, st3) | (Inr u, st3) \<Rightarrow> (Inr opt, st3)) =
   fst (case h' of (Inl e, st3) \<Rightarrow> (Inl e, st3) | (Inr u, st3) \<Rightarrow> (Inr opt, st3)) \<and>
   snd (snd (case h of (Inl e, st3) \<Rightarrow> (Inl e, st3) | (Inr u, st3) \<Rightarrow> (Inr opt, st3))) =
   snd (snd (case h' of (Inl e, st3) \<Rightarrow> (Inl e, st3) | (Inr u, st3) \<Rightarrow> (Inr opt, st3)))"
  by (cases h; cases h') (auto split: sum.splits)

lemma fit_scipy_bounds_agree:
  assumes "unique_keys (initial_parameters self)"
    and "\<forall>k \<in> set (dict_keys (flatten_dict (initial_parameters self))).
           map_of (flatten_dict B') k = map_of (flatten_dict (bounds self)) k"
  shows "fst (fit_scipy (self\<lparr>bounds := B'\<rparr>) minimize st) = fst (fit_scipy self minimize st) \<and>
         snd (snd (fit_scipy (self\<lparr>bounds := B'\<rparr>) minimize st)) = snd (snd (fit_scipy self minimize st))"
proof -
  obtain lg w where st: "st = (lg, w)" by (cases st)
  let ?self' = "self\<lparr>bounds := B'\<rparr>"
  let ?keys = "dict_keys (flatten_dict (initial_parameters self))"
  have ip: "initial_parameters ?self' = initial_parameters self" "bounds ?self' = B'" by simp_all
  have u': "unique_keys (initial_parameters ?self')" using assms(1) by simp
  note unf' = fit_scipy_unfold[OF u', unfolded ip]
  have sb: "scipy_bounds (flatten_dict B') ?keys = scipy_bounds (flatten_dict (bounds self)) ?keys"
    using assms(2) by (rule scipy_bounds_cong)
  obtain r1 l1 w1 where p1: "hook_pre_fit self (lg, w) = (r1, (l1, w1))"
    by (metis prod.exhaust)
  obtain r1' l1' w1' where p1': "hook_pre_fit ?self' (lg, w) = (r1', (l1', w1'))"
    by (metis prod.exhaust)
  from hook_pre_fit_bounds[where self=self and B=B' and lg=lg and w=w and lg'=lg] p1 p1' have e1: "r1' = r1" "w1' = w1" by simp_all
  show ?thesis
  proof (cases r1)
    case (Inl e)
    then show ?thesis
      by (simp add: fit_scipy_unfold[OF assms(1)] unf' st p1 p1' e1)
  next
    case (Inr u)
    obtain r2 w2 where m: "minimize (f_scipy self ?keys) (map snd (flatten_dict (initial_parameters self)))
         (scipy_bounds (flatten_dict (bounds self)) ?keys) w1 = (r2, w2)"
      by (metis prod.exhaust)
    show ?thesis
    proof (cases r2)
      case (Inl e)
      then show ?thesis using Inr
        by (simp add: fit_scipy_unfold[OF assms(1)] unf' st p1 p1' e1 sb m
            f_scipy_bounds_irrelevant)
    next
      case (Inr res)
      let ?opt = "unflatten_dict (dict_of_pairs (zip ?keys (res_x res)))"
      note hp = hook_post_fit_bounds[where self=self and B=B' and opt="?opt" and w=w2]
      have "fit_scipy ?self' minimize st =
          (case hook_post_fit ?self' ?opt
                  (if \<not> res_success res
                   then (l1' @ [(WARNING, Fit_did_not_converge (res_message res))], w2)
                   else (l1', w2)) of
             (Inl e, st3) \<Rightarrow> (Inl e, st3) | (Inr u', st3) \<Rightarrow> (Inr ?opt, st3))"
        using Inr \<open>r1 = Inr u\<close>
        by (simp add: unf' st p1' e1 sb m f_scipy_bounds_irrelevant warning_def)
      moreover have "fit_scipy self minimize st =
          (case hook_post_fit self ?opt
                  (if \<not> res_success res
                   then (l1 @ [(WARNING, Fit_did_not_converge (res_message res))], w2)
                   else (l1, w2)) of
             (Inl e, st3) \<Rightarrow> (Inl e, st3) | (Inr u', st3) \<Rightarrow> (Inr ?opt, st3))"
        using Inr \<open>r1 = Inr u\<close>
        by (simp add: fit_scipy_unfold[OF assms(1)] st p1 m warning_def)
      ultimately show ?thesis
        using finish_cong[OF hp[where lg="l1'" and lg'="l1", THEN conjunct1]
                             hp[where lg="l1'" and lg'="l1", THEN conjunct2], of ?opt]
          finish_cong[OF hp[where lg="l1' @ [(WARNING, Fit_did_not_converge (res_message res))]"
               and lg'="l1 @ [(WARNING, Fit_did_not_converge (res_message res))]", THEN conjunct1]
              hp[where lg="l1' @ [(WARNING, Fit_did_not_converge (res_message res))]"
               and lg'="l1 @ [(WARNING, Fit_did_not_converge (res_message res))]", THEN conjunct2], of ?opt]
        by (simp split: if_splits)
    qed
  qed
qed

lemma applier_prefix:
  "\<forall>k \<in> fst ` set pre. hasattr scme k \<Longrightarrow>
   SCMEParameterApplier_call (pre @ rest) scme =
   SCMEParameterApplier_call rest (fold (\<lambda>(k, v) s. setattr s k v) pre scme)"
proof (induction pre arbitrary: scme)
  case Nil
  then show ?case by simp
next
  case (Cons e pre)
  obtain k v where e: "e = (k, v)" by (cases e)
  have "\<forall>k' \<in> fst ` set pre. hasattr (setattr scme k v) k'"
    using Cons.prems by (auto simp: hasattr_def setattr_def)
  from Cons.IH[OF this] Cons.prems show ?case by (simp add: e)
qed

lemma fold_setattr_other:
  "k \<notin> fst ` set pre \<Longrightarrow> fold (\<lambda>(k, v) s. setattr s k v) pre scme k = scme k"
  by (induction pre arbitrary: scme) (auto simp: setattr_def)

lemma fold_setattr_set:
  "distinct (map fst pre) \<Longrightarrow> (k, v) \<in> set pre \<Longrightarrow>
   fold (\<lambda>(k, v) s. setattr s k v) pre scme k = Some v"
proof (induction pre arbitrary: scme)
  case Nil
  then show ?case by simp
next
  case (Cons e pre)
  obtain k' v' where e: "e = (k', v')" by (cases e)
  show ?case
  proof (cases "(k, v) = (k', v')")
    case True
    then have "k \<notin> fst ` set pre" using Cons.prems(1) e by auto
    then have "fold (\<lambda>(k, v) s. setattr s k v) pre (setattr scme k' v') k = setattr scme k' v' k"
      by (rule fold_setattr_other)
    moreover have "setattr scme k' v' k = Some v" using True by (simp add: setattr_def)
    ultimately show ?thesis by (simp add: e)
  next
    case False
    then have "(k, v) \<in> set pre" using Cons.prems(2) e by auto
    moreover have "distinct (map fst pre)" using Cons.prems(1) by simp
    ultimately show ?thesis using Cons.IH by (simp add: e)
  qed
qed


lemma hasattr_fold_setattr:
  "hasattr (fold (\<lambda>(k, v) s. setattr s k v) pre scme) k \<longleftrightarrow> hasattr scme k \<or> k \<in> fst ` set pre"
  by (induction pre arbitrary: scme) (auto simp: hasattr_def setattr_def)

lemma collect_Path_strs: "collect (Path to_path) (map Str names) = Inr (map to_path names)"
  by (induction names) auto

lemma collect_join_strs:
  "collect (\<lambda>fname. case Path to_path fname of Inl e \<Rightarrow> Inl e | Inr q \<Rightarrow> Inr (joinpath base q))
     (map Str names) = Inr (map (\<lambda>s. joinpath base (to_path s)) names)"
  by (induction names) auto

lemma getcol_without_file:
  "c \<noteq> ''file'' \<Longrightarrow>
   getcol (df\<lparr>columns := removeAll ''file'' (columns df),
              rows := map (\<lambda>r. r(''file'' := other r)) (rows df)\<rparr>) c = getcol df c"
  by (simp add: getcol_def comp_def)






































section \<open>The claims\<close>

subsection \<open>C1: flattening and unflattening are inverse\<close>

text \<open>
  Claim C1. For every nested mapping \<open>x\<close> whose leaves are all numeric scalars
  (\<open>valid_params\<close>: a dict at every level, so each key once, and no empty mapping
  below the top, which would be a leaf that is no scalar), unflattening the flattened
  \<open>x\<close> gives \<open>x\<close> back, insertion order included; and the adapter \<open>f_scipy\<close>
  of a fit call, given the keys and the values of the flattened \<open>x\<close>, hands exactly
  \<open>x\<close> to the objective function.
\<close>

theorem unflatten_flatten_round_trip:
  "valid_params x \<Longrightarrow>
     unflatten_dict (flatten_dict x) = x \<and>
     f_scipy self (dict_keys (flatten_dict x)) (map snd (flatten_dict x)) = objective_function self x"
proof -
  assume v: "valid_params x"
  have "dict_of_pairs (zip (dict_keys (flatten_dict x)) (map snd (flatten_dict x))) = flatten_dict x"
    using flatten_distinct[OF valid_unique_keys[OF v]] by (simp add: dict_keys_def dict_of_pairs_distinct zip_keys_values)
  then show ?thesis using unflatten_flatten_id[OF v] by (simp add: f_scipy_def)
qed

theorem unflatten_flatten_round_trip_witness:
  "valid_params [(''td'', Leaf (1::int)), (''oo'', Dict [(''A'', Leaf 2), (''B'', Leaf 3)])] \<and>
   flatten_dict [(''td'', Leaf (1::int)), (''oo'', Dict [(''A'', Leaf 2), (''B'', Leaf 3)])] =
     [([''td''], 1), ([''oo'', ''A''], 2), ([''oo'', ''B''], 3)] \<and>
   unflatten_dict [([''td''], 1::int), ([''oo'', ''A''], 2), ([''oo'', ''B''], 3)] =
     [(''td'', Leaf 1), (''oo'', Dict [(''A'', Leaf 2), (''B'', Leaf 3)])]"
  using unflatten_flatten_round_trip
    [of "[(''td'', Leaf (1::int)), (''oo'', Dict [(''A'', Leaf 2), (''B'', Leaf 3)])]"
        "Fitter_init (\<lambda>p (w::unit). (Inr 0, w)) [] None"]
  by simp

subsection \<open>C2: one key ordering per fit call\<close>



subsection \<open>C3: non-convergence is logged and the iterate is returned\<close>

text \<open>
  Claim C3. When the backend returns a result with \<open>success\<close> false,
  \<open>fit_scipy\<close> logs a warning with the backend's message and goes on as in the
  convergent case: it returns the same value (or raises the same error) and leaves the
  same world as for the same result with \<open>success\<close> true; and when the objective
  function returns at the unflattened result vector, that nested mapping is what the
  call returns, the warning standing in the log between the records of the two hooks.
\<close>

theorem fit_scipy_non_convergence_recovered:
  assumes "unique_keys (initial_parameters self)"
    and "keys = dict_keys (flatten_dict (initial_parameters self))"
    and "objective_function self (initial_parameters self) w = (Inr ob_init, w0)"
    and "minimize (f_scipy self keys) (map snd (flatten_dict (initial_parameters self)))
           (scipy_bounds (flatten_dict (bounds self)) keys) w0 = (Inr res, w1)"
    and "\<not> res_success res"
    and "opt_params = unflatten_dict (dict_of_pairs (zip keys (res_x res)))"
    and "converged = (\<lambda>f x b v. case minimize f x b v of
                                (Inr r, v') \<Rightarrow> (Inr (r\<lparr>res_success := True\<rparr>), v')
                              | (Inl e, v') \<Rightarrow> (Inl e, v'))"
  shows "(WARNING, Fit_did_not_converge (res_message res))
           \<in> set (fst (snd (fit_scipy self minimize (lg, w))))
       \<and> fst (fit_scipy self minimize (lg, w)) = fst (fit_scipy self converged (lg, w))
       \<and> snd (snd (fit_scipy self minimize (lg, w))) = snd (snd (fit_scipy self converged (lg, w)))
       \<and> (\<forall>ob w2. objective_function self opt_params w1 = (Inr ob, w2) \<longrightarrow>
            fit_scipy self minimize (lg, w) =
              (Inr opt_params,
               (lg @ [(INFO, Start_fitting), (INFO, Initial_parameters (initial_parameters self)),
                      (INFO, Bounds (bounds self)), (INFO, Initial_obj_func ob_init),
                      (WARNING, Fit_did_not_converge (res_message res)),
                      (INFO, End_fitting), (INFO, Final_objective_function ob),
                      (INFO, Optimal_parameters opt_params), (INFO, Time_taken)], w2)))"
proof -
  let ?opt = "unflatten_dict (dict_of_pairs
                (zip (dict_keys (flatten_dict (initial_parameters self))) (res_x res)))"
  let ?head = "[(INFO, Start_fitting), (INFO, Initial_parameters (initial_parameters self)),
               (INFO, Bounds (bounds self)), (INFO, Initial_obj_func ob_init)]"
  let ?wrn = "(WARNING, Fit_did_not_converge (res_message res))"
  note pre = hook_pre_fit_ok[OF assms(3), of lg]
  note bk = assms(4)[unfolded assms(2)]
  have bk': "converged (f_scipy self (dict_keys (flatten_dict (initial_parameters self))))
        (map snd (flatten_dict (initial_parameters self)))
        (scipy_bounds (flatten_dict (bounds self)) (dict_keys (flatten_dict (initial_parameters self))))
        w0 = (Inr (res\<lparr>res_success := True\<rparr>), w1)"
    by (simp add: assms(7) bk)
  obtain r2 w2 where o: "objective_function self ?opt w1 = (r2, w2)"
    by (cases "objective_function self ?opt w1")
  show ?thesis
  proof (cases r2)
    case (Inl e)
    note post = hook_post_fit_err[OF o[unfolded Inl]]
    have a: "fit_scipy self minimize (lg, w) = (Inl e, (lg @ ?head @ [?wrn, (INFO, End_fitting)], w2))"
      using bk assms(5) by (simp add: fit_scipy_unfold[OF assms(1)] pre post warning_def)
    have b: "fit_scipy self converged (lg, w) = (Inl e, (lg @ ?head @ [(INFO, End_fitting)], w2))"
      using bk' by (simp add: fit_scipy_unfold[OF assms(1)] pre post)
    show ?thesis using o Inl unfolding a b assms(6) assms(2) by simp
  next
    case (Inr ob)
    note post = hook_post_fit_ok[OF o[unfolded Inr]]
    have a: "fit_scipy self minimize (lg, w) =
        (Inr ?opt, (lg @ ?head @ [?wrn, (INFO, End_fitting), (INFO, Final_objective_function ob),
                      (INFO, Optimal_parameters ?opt), (INFO, Time_taken)], w2))"
      using bk assms(5) by (simp add: fit_scipy_unfold[OF assms(1)] pre post warning_def)
    have b: "fit_scipy self converged (lg, w) =
        (Inr ?opt, (lg @ ?head @ [(INFO, End_fitting), (INFO, Final_objective_function ob),
                      (INFO, Optimal_parameters ?opt), (INFO, Time_taken)], w2))"
      using bk' by (simp add: fit_scipy_unfold[OF assms(1)] pre post)
    show ?thesis using o Inr unfolding a b assms(6) assms(2) by simp
  qed
qed

theorem fit_scipy_non_convergence_recovered_witness:
  "unique_keys [(''x'', Leaf (0::int)), (''y'', Leaf 0)] \<and>
   \<not> res_success \<lparr>res_success = False, res_message = ''iteration limit'', res_x = [2::int, - 1]\<rparr> \<and>
   fit_scipy
     \<lparr>objective_function = (\<lambda>p (w::unit). (Inr 7, w)),
      initial_parameters = [(''x'', Leaf (0::int)), (''y'', Leaf 0)],
      bounds = []\<rparr>
     (\<lambda>f x b w. (Inr \<lparr>res_success = False, res_message = ''iteration limit'', res_x = [2, - 1]\<rparr>, w))
     ([], ()) =
   (Inr [(''x'', Leaf 2), (''y'', Leaf (- 1))],
    ([(INFO, Start_fitting),
      (INFO, Initial_parameters [(''x'', Leaf 0), (''y'', Leaf 0)]),
      (INFO, Bounds []), (INFO, Initial_obj_func 7),
      (WARNING, Fit_did_not_converge ''iteration limit''),
      (INFO, End_fitting), (INFO, Final_objective_function 7),
      (INFO, Optimal_parameters [(''x'', Leaf 2), (''y'', Leaf (- 1))]), (INFO, Time_taken)], ()))"
proof -
  let ?S = "\<lparr>objective_function = (\<lambda>p (w::unit). (Inr (7::int), w)),
      initial_parameters = [(''x'', Leaf (0::int)), (''y'', Leaf 0)],
      bounds = []\<rparr>"
  let ?R = "\<lparr>res_success = False, res_message = ''iteration limit'', res_x = [2::int, - 1]\<rparr>"
  let ?M = "\<lambda>(f :: (int, unit) flat_objective) (x :: int list) (b :: int bound list option) (w::unit).
              (Inr ?R :: error + int optimize_result, w)"
  let ?C = "\<lambda>f x b v. case ?M f x b v of
                                (Inr r, v') \<Rightarrow> (Inr (r\<lparr>res_success := True\<rparr>), v')
                              | (Inl e, v') \<Rightarrow> (Inl e, v')"
  let ?K = "[[''x''], [''y'']]"
  let ?opt = "[(''x'', Leaf (2::int)), (''y'', Leaf (- 1))]"
  have 1: "unique_keys (initial_parameters ?S)" by simp
  have 2: "?K = dict_keys (flatten_dict (initial_parameters ?S))" by (simp add: dict_keys_def)
  have 3: "objective_function ?S (initial_parameters ?S) () = (Inr 7, ())" by simp
  have 4: "?M (f_scipy ?S ?K) (map snd (flatten_dict (initial_parameters ?S)))
           (scipy_bounds (flatten_dict (bounds ?S)) ?K) () = (Inr ?R, ())" by simp
  have 5: "\<not> res_success ?R" by simp
  have 6: "?opt = unflatten_dict (dict_of_pairs (zip ?K (res_x ?R)))"
    by (simp add: unflatten_dict_def dict_of_pairs_def)
  have 7: "?C = (\<lambda>f x b v. case ?M f x b v of
                                (Inr r, v') \<Rightarrow> (Inr (r\<lparr>res_success := True\<rparr>), v')
                              | (Inl e, v') \<Rightarrow> (Inl e, v'))" by (rule refl)
  have 8: "objective_function ?S ?opt () = (Inr 7, ())" by simp
  from fit_scipy_non_convergence_recovered[where minimize="?M" and self="?S" and keys="?K"
         and res="?R" and opt_params="?opt" and lg="[]" and w="()" and ?w0.0="()" and ?w1.0="()"
         and ob_init=7 and converged="?C", OF 1 2 3 4 5 6 7,
         THEN conjunct2, THEN conjunct2, THEN conjunct2, THEN spec, THEN spec, THEN mp, OF 8] 1 5
  show ?thesis by simp
qed

subsection \<open>C4: an unknown parameter stops the evaluation\<close>



subsection \<open>C5: no rollback after an unknown parameter\<close>

text \<open>
  Claim C5. When the applier raises at a name, every name processed before it holds its
  new value on the SCME object afterwards, and every other attribute is as it was.
\<close>

theorem unknown_parameter_no_rollback:
  assumes "distinct (map fst params)"
    and "params = pre @ (key, v) # rest"
    and "\<forall>k \<in> fst ` set pre. hasattr scme k"
    and "\<not> hasattr scme key"
  shows "\<exists>scme'. SCMEParameterApplier_call params scme =
                    (Inl (KeyError (cannot_set_parameter key)), scme') \<and>
                 (\<forall>(k, v') \<in> set pre. scme' k = Some v') \<and>
                 (\<forall>k. k \<notin> fst ` set pre \<longrightarrow> scme' k = scme k)"
proof -
  let ?s = "fold (\<lambda>(k, v) s. setattr s k v) pre scme"
  have "key \<notin> fst ` set pre" using assms(1,2) by auto
  then have "\<not> hasattr ?s key" using assms(4) by (simp add: hasattr_fold_setattr)
  then have "SCMEParameterApplier_call params scme = (Inl (KeyError (cannot_set_parameter key)), ?s)"
    using applier_prefix[OF assms(3), of "(key, v) # rest"] by (simp add: assms(2))
  moreover have "\<forall>(k, v') \<in> set pre. ?s k = Some v'"
    using assms(1,2) by (auto intro!: fold_setattr_set)
  moreover have "\<forall>k. k \<notin> fst ` set pre \<longrightarrow> ?s k = scme k"
    by (simp add: fold_setattr_other)
  ultimately show ?thesis by blast
qed

theorem unknown_parameter_no_rollback_witness:
  "distinct (map fst [(''td'', 1::int), (''bogus'', 2), (''te'', 3)]) \<and>
   \<not> hasattr (map_of [(''td'', 0::int), (''te'', 0)]) ''bogus'' \<and>
   (\<exists>scme'. SCMEParameterApplier_call [(''td'', 1::int), (''bogus'', 2), (''te'', 3)]
              (map_of [(''td'', 0), (''te'', 0)]) =
              (Inl (KeyError (cannot_set_parameter ''bogus'')), scme') \<and>
            scme' ''td'' = Some 1 \<and> scme' ''te'' = Some 0)"
proof -
  let ?P = "[(''td'', 1::int), (''bogus'', 2), (''te'', 3)]"
  let ?S = "map_of [(''td'', 0::int), (''te'', 0)]"
  have 1: "distinct (map fst ?P)" by simp
  have 2: "?P = [(''td'', 1)] @ (''bogus'', 2) # [(''te'', 3)]" by simp
  have 3: "\<forall>k \<in> fst ` set [(''td'', 1::int)]. hasattr ?S k" by (simp add: hasattr_def)
  have 4: "\<not> hasattr ?S ''bogus''" by (simp add: hasattr_def)
  from unknown_parameter_no_rollback[OF 1 2 3 4] obtain scme' where
    a: "SCMEParameterApplier_call ?P ?S = (Inl (KeyError (cannot_set_parameter ''bogus'')), scme')"
    and b: "\<forall>(k, v') \<in> set [(''td'', 1::int)]. scme' k = Some v'"
    and c: "\<forall>k. k \<notin> fst ` set [(''td'', 1::int)] \<longrightarrow> scme' k = ?S k"
    by blast
  from b have "scme' ''td'' = Some 1" by simp
  moreover from c have "scme' ''te'' = Some 0" by simp
  ultimately show ?thesis using a 1 4 by blast
qed

subsection \<open>C6: alignment of the bounds\<close>

text \<open>
  Claim C6. A flattened initial-parameter key that the flattened bounds do not have gets
  the bound \<open>(None, None)\<close> at its position of the bounds array; and bounds that
  differ only on keys with no counterpart among the flattened initial parameters give
  the same bounds array, the same returned value (or error) and the same outside world.
\<close>

theorem bounds_default_and_extra_keys_ignored:
  assumes "unique_keys (initial_parameters self)"
    and "keys = dict_keys (flatten_dict (initial_parameters self))"
  shows "(\<forall>i < length keys. keys ! i \<notin> fst ` set (flatten_dict (bounds self)) \<longrightarrow>
            (\<exists>b. scipy_bounds (flatten_dict (bounds self)) keys = Some b \<and> length b = length keys \<and>
                 b ! i = (None, None)))
       \<and> (\<forall>B'. (\<forall>k \<in> set keys. map_of (flatten_dict B') k = map_of (flatten_dict (bounds self)) k) \<longrightarrow>
            scipy_bounds (flatten_dict B') keys = scipy_bounds (flatten_dict (bounds self)) keys \<and>
            fst (fit_scipy (self\<lparr>bounds := B'\<rparr>) minimize st) = fst (fit_scipy self minimize st) \<and>
            snd (snd (fit_scipy (self\<lparr>bounds := B'\<rparr>) minimize st)) =
              snd (snd (fit_scipy self minimize st)))"
proof (intro conjI allI impI)
  fix i assume i: "i < length keys" and "keys ! i \<notin> fst ` set (flatten_dict (bounds self))"
  then have "map_of (flatten_dict (bounds self)) (keys ! i) = None"
    by (simp add: map_of_eq_None_iff)
  then have "dict_get (flatten_dict (bounds self)) (keys ! i) (None, None) = (None, None)"
    by (simp add: dict_get_def)
  moreover from i have "keys \<noteq> []" by auto
  ultimately show "\<exists>b. scipy_bounds (flatten_dict (bounds self)) keys = Some b \<and>
      length b = length keys \<and> b ! i = (None, None)"
    using i by (simp add: scipy_bounds_Some)
next
  fix B' assume "\<forall>k \<in> set keys. map_of (flatten_dict B') k = map_of (flatten_dict (bounds self)) k"
  then show "scipy_bounds (flatten_dict B') keys = scipy_bounds (flatten_dict (bounds self)) keys"
    by (rule scipy_bounds_cong)
next
  fix B' assume a: "\<forall>k \<in> set keys. map_of (flatten_dict B') k = map_of (flatten_dict (bounds self)) k"
  from fit_scipy_bounds_agree[OF assms(1) a[unfolded assms(2)]]
  show "fst (fit_scipy (self\<lparr>bounds := B'\<rparr>) minimize st) = fst (fit_scipy self minimize st)"
    by simp
next
  fix B' assume a: "\<forall>k \<in> set keys. map_of (flatten_dict B') k = map_of (flatten_dict (bounds self)) k"
  from fit_scipy_bounds_agree[OF assms(1) a[unfolded assms(2)]]
  show "snd (snd (fit_scipy (self\<lparr>bounds := B'\<rparr>) minimize st)) =
              snd (snd (fit_scipy self minimize st))"
    by simp
qed

theorem bounds_default_and_extra_keys_ignored_witness:
  "unique_keys [(''td'', Leaf (1::int)), (''oo'', Dict [(''A'', Leaf 2), (''B'', Leaf 3)])] \<and>
   scipy_bounds (flatten_dict [(''td'', Leaf (Some (0::int), None))])
      [[''td''], [''oo'', ''A''], [''oo'', ''B'']] =
     Some [(Some 0, None), (None, None), (None, None)] \<and>
   scipy_bounds (flatten_dict [(''zz'', Leaf (None, Some 9)), (''td'', Leaf (Some (0::int), None))])
      [[''td''], [''oo'', ''A''], [''oo'', ''B'']] =
     Some [(Some 0, None), (None, None), (None, None)] \<and>
   fst (fit_scipy
          \<lparr>objective_function = (\<lambda>p (w::unit). (Inr 0, w)),
           initial_parameters = [(''td'', Leaf (1::int)), (''oo'', Dict [(''A'', Leaf 2), (''B'', Leaf 3)])],
           bounds = [(''zz'', Leaf (None, Some 9)), (''td'', Leaf (Some 0, None))]\<rparr>
          (\<lambda>f x b w. (Inr \<lparr>res_success = True, res_message = [], res_x = x\<rparr>, w)) ([], ())) =
   fst (fit_scipy
          \<lparr>objective_function = (\<lambda>p (w::unit). (Inr 0, w)),
           initial_parameters = [(''td'', Leaf (1::int)), (''oo'', Dict [(''A'', Leaf 2), (''B'', Leaf 3)])],
           bounds = [(''td'', Leaf (Some 0, None))]\<rparr>
          (\<lambda>f x b w. (Inr \<lparr>res_success = True, res_message = [], res_x = x\<rparr>, w)) ([], ()))"
proof -
  let ?S = "\<lparr>objective_function = (\<lambda>p (w::unit). (Inr (0::int), w)),
           initial_parameters = [(''td'', Leaf (1::int)), (''oo'', Dict [(''A'', Leaf 2), (''B'', Leaf 3)])],
           bounds = [(''td'', Leaf (Some 0, None))]\<rparr>"
  let ?K = "[[''td''], [''oo'', ''A''], [''oo'', ''B'']]"
  let ?M = "\<lambda>(f :: (int, unit) flat_objective) (x :: int list) (b :: int bound list option) (w::unit).
              (Inr \<lparr>res_success = True, res_message = [], res_x = x\<rparr> :: error + int optimize_result, w)"
  have u: "unique_keys (initial_parameters ?S)" by simp
  have k: "?K = dict_keys (flatten_dict (initial_parameters ?S))" by (simp add: dict_keys_def)
  note t = bounds_default_and_extra_keys_ignored[OF u k, of ?M "([], ())"]
  from t[THEN conjunct1, rule_format, of 1]
  have 1: "scipy_bounds (flatten_dict [(''td'', Leaf (Some (0::int), None))]) ?K =
     Some [(Some 0, None), (None, None), (None, None)]"
    by (simp add: scipy_bounds_def dict_get_def)
  have agree: "\<forall>k \<in> set ?K.
      map_of (flatten_dict [(''zz'', Leaf (None, Some 9)), (''td'', Leaf (Some (0::int), None))]) k =
      map_of (flatten_dict (bounds ?S)) k"
    by simp
  from t[THEN conjunct2, THEN spec, THEN mp, OF agree]
  have 2: "scipy_bounds (flatten_dict [(''zz'', Leaf (None, Some 9)), (''td'', Leaf (Some (0::int), None))]) ?K =
       scipy_bounds (flatten_dict [(''td'', Leaf (Some (0::int), None))]) ?K \<and>
     fst (fit_scipy (?S\<lparr>bounds := [(''zz'', Leaf (None, Some 9)), (''td'', Leaf (Some (0::int), None))]\<rparr>)
            ?M ([], ())) = fst (fit_scipy ?S ?M ([], ()))"
    by simp
  from u 1 2 show ?thesis by simp
qed

subsection \<open>C7: reordering the initial parameters\<close>




subsection \<open>C8: path resolution of the dataset loader\<close>

text \<open>
  Claim C8. With a \<open>path\<close> column the loader returns its values as paths, whatever
  the location of the CSV; with a \<open>file\<close> column only, it returns each value joined
  to the resolved parent directory of the CSV (a relative value lies under that
  directory). Paths, tags and reference energies are read off the same rows, first to
  last.
\<close>

theorem process_csv_path_resolution:
  assumes "read_csv path_to_csv = Inr df"
    and "''tag'' \<in> set (columns df)" and "''reference_energy'' \<in> set (columns df)"
  shows "(''path'' \<in> set (columns df) \<longrightarrow>
            map (\<lambda>r. r ''path'') (rows df) = map Str names \<longrightarrow>
            process_csv to_path resolve read_csv path_to_csv =
              Inr (map to_path names,
                   map (\<lambda>r. r ''tag'') (rows df),
                   map (\<lambda>r. r ''reference_energy'') (rows df)))
       \<and> (''path'' \<notin> set (columns df) \<longrightarrow> ''file'' \<in> set (columns df) \<longrightarrow>
            map (\<lambda>r. r ''file'') (rows df) = map Str names \<longrightarrow>
            process_csv to_path resolve read_csv path_to_csv =
              Inr (map (\<lambda>s. joinpath (resolve (parent path_to_csv)) (to_path s)) names,
                   map (\<lambda>r. r ''tag'') (rows df),
                   map (\<lambda>r. r ''reference_energy'') (rows df)))
       \<and> (\<forall>s. \<not> is_absolute (to_path s) \<longrightarrow>
            joinpath (resolve (parent path_to_csv)) (to_path s) =
              \<lparr>is_absolute = is_absolute (resolve (parent path_to_csv)),
               components = components (resolve (parent path_to_csv)) @ components (to_path s)\<rparr>)"
proof (intro conjI)
  show "''path'' \<in> set (columns df) \<longrightarrow>
            map (\<lambda>r. r ''path'') (rows df) = map Str names \<longrightarrow>
            process_csv to_path resolve read_csv path_to_csv =
              Inr (map to_path names,
                   map (\<lambda>r. r ''tag'') (rows df),
                   map (\<lambda>r. r ''reference_energy'') (rows df))"
    using assms by (simp add: process_csv_def getcol_def collect_Path_strs)
  show "''path'' \<notin> set (columns df) \<longrightarrow> ''file'' \<in> set (columns df) \<longrightarrow>
            map (\<lambda>r. r ''file'') (rows df) = map Str names \<longrightarrow>
            process_csv to_path resolve read_csv path_to_csv =
              Inr (map (\<lambda>s. joinpath (resolve (parent path_to_csv)) (to_path s)) names,
                   map (\<lambda>r. r ''tag'') (rows df),
                   map (\<lambda>r. r ''reference_energy'') (rows df))"
    using assms by (simp add: process_csv_def getcol_def collect_join_strs)
  show "\<forall>s. \<not> is_absolute (to_path s) \<longrightarrow>
            joinpath (resolve (parent path_to_csv)) (to_path s) =
              \<lparr>is_absolute = is_absolute (resolve (parent path_to_csv)),
               components = components (resolve (parent path_to_csv)) @ components (to_path s)\<rparr>"
    by (simp add: joinpath_def)
qed

theorem process_csv_path_resolution_witness:
  "process_csv (\<lambda>s. \<lparr>is_absolute = False, components = [s]\<rparr>)
     (\<lambda>p. \<lparr>is_absolute = True, components = ''home'' # components p\<rparr>)
     (\<lambda>p. Inr \<lparr>columns = [''path'', ''tag'', ''reference_energy''],
                 rows = [(\<lambda>c. if c = ''path'' then Str ''a.xyz'' else if c = ''tag'' then Str ''dimer'' else Num 1),
                         (\<lambda>c. if c = ''path'' then Str ''b.xyz'' else if c = ''tag'' then Str ''trimer'' else Num 2)]\<rparr>)
     \<lparr>is_absolute = False, components = [''data'', ''energies.csv'']\<rparr> =
   Inr ([\<lparr>is_absolute = False, components = [''a.xyz'']\<rparr>,
         \<lparr>is_absolute = False, components = [''b.xyz'']\<rparr>],
        [Str ''dimer'', Str ''trimer''], [Num 1, Num 2]) \<and>
   process_csv (\<lambda>s. \<lparr>is_absolute = False, components = [s]\<rparr>)
     (\<lambda>p. \<lparr>is_absolute = True, components = ''home'' # components p\<rparr>)
     (\<lambda>p. Inr \<lparr>columns = [''file'', ''tag'', ''reference_energy''],
                 rows = [(\<lambda>c. if c = ''file'' then Str ''a.xyz'' else if c = ''tag'' then Str ''dimer'' else Num 1),
                         (\<lambda>c. if c = ''file'' then Str ''b.xyz'' else if c = ''tag'' then Str ''trimer'' else Num 2)]\<rparr>)
     \<lparr>is_absolute = False, components = [''data'', ''energies.csv'']\<rparr> =
   Inr ([\<lparr>is_absolute = True, components = [''home'', ''data'', ''a.xyz'']\<rparr>,
         \<lparr>is_absolute = True, components = [''home'', ''data'', ''b.xyz'']\<rparr>],
        [Str ''dimer'', Str ''trimer''], [Num 1, Num 2])"
proof -
  let ?tp = "\<lambda>s. \<lparr>is_absolute = False, components = [s]\<rparr>"
  let ?res = "\<lambda>p. \<lparr>is_absolute = True, components = ''home'' # components p\<rparr>"
  let ?csv = "\<lparr>is_absolute = False, components = [''data'', ''energies.csv'']\<rparr>"
  let ?df1 = "\<lparr>columns = [''path'', ''tag'', ''reference_energy''],
                 rows = [(\<lambda>c. if c = ''path'' then Str ''a.xyz'' else if c = ''tag'' then Str ''dimer'' else Num 1),
                         (\<lambda>c. if c = ''path'' then Str ''b.xyz'' else if c = ''tag'' then Str ''trimer'' else Num 2)]\<rparr>"
  let ?df2 = "\<lparr>columns = [''file'', ''tag'', ''reference_energy''],
                 rows = [(\<lambda>c. if c = ''file'' then Str ''a.xyz'' else if c = ''tag'' then Str ''dimer'' else Num 1),
                         (\<lambda>c. if c = ''file'' then Str ''b.xyz'' else if c = ''tag'' then Str ''trimer'' else Num 2)]\<rparr>"
  have t: "''tag'' \<in> set (columns ?df1)" "''reference_energy'' \<in> set (columns ?df1)"
    "''tag'' \<in> set (columns ?df2)" "''reference_energy'' \<in> set (columns ?df2)"
    by simp_all
  have p1: "''path'' \<in> set (columns ?df1)" by simp
  have n1: "map (\<lambda>r. r ''path'') (rows ?df1) = map Str [''a.xyz'', ''b.xyz'']" by simp
  have p2: "''path'' \<notin> set (columns ?df2)" "''file'' \<in> set (columns ?df2)" by simp_all
  have n2: "map (\<lambda>r. r ''file'') (rows ?df2) = map Str [''a.xyz'', ''b.xyz'']" by simp
  have r1: "(\<lambda>p :: ppath. Inr ?df1 :: error + dataframe) ?csv = Inr ?df1" by simp
  have r2: "(\<lambda>p :: ppath. Inr ?df2 :: error + dataframe) ?csv = Inr ?df2" by simp
  from process_csv_path_resolution[where read_csv="\<lambda>p. Inr ?df1" and df="?df1"
         and to_path="?tp" and resolve="?res" and names="[''a.xyz'', ''b.xyz'']",
         OF r1 t(1,2), THEN conjunct1, THEN mp, THEN mp, OF p1 n1]
       process_csv_path_resolution[where read_csv="\<lambda>p. Inr ?df2" and df="?df2"
         and to_path="?tp" and resolve="?res" and names="[''a.xyz'', ''b.xyz'']",
         OF r2 t(3,4), THEN conjunct2, THEN conjunct1, THEN mp, THEN mp, THEN mp, OF p2 n2]
  show ?thesis by (simp add: joinpath_def parent_def)
qed

subsection \<open>C9: the next free folder\<close>




subsection \<open>C10: the \<open>path\<close> column wins over the \<open>file\<close> column\<close>

text \<open>
  Claim C10. When the CSV has both a \<open>path\<close> and a \<open>file\<close> column, the loader
  returns what it returns for the same table without the \<open>file\<close> column, read from
  anywhere: the \<open>file\<close> column is never looked at and raises no error, and the paths
  are those of the \<open>path\<close> column.
\<close>

theorem process_csv_path_column_wins:
  assumes "read_csv path_to_csv = Inr df"
    and "''path'' \<in> set (columns df)" and "''file'' \<in> set (columns df)"
    and "read_csv' path_to_csv' = Inr (df\<lparr>columns := removeAll ''file'' (columns df),
                                            rows := map (\<lambda>r. r(''file'' := other r)) (rows df)\<rparr>)"
  shows "process_csv to_path resolve read_csv path_to_csv =
         process_csv to_path resolve' read_csv' path_to_csv'
       \<and> (''tag'' \<in> set (columns df) \<longrightarrow> ''reference_energy'' \<in> set (columns df) \<longrightarrow>
            map (\<lambda>r. r ''path'') (rows df) = map Str names \<longrightarrow>
            process_csv to_path resolve read_csv path_to_csv =
              Inr (map to_path names,
                   map (\<lambda>r. r ''tag'') (rows df),
                   map (\<lambda>r. r ''reference_energy'') (rows df)))"
proof -
  let ?df' = "df\<lparr>columns := removeAll ''file'' (columns df),
                 rows := map (\<lambda>r. r(''file'' := other r)) (rows df)\<rparr>"
  have g: "getcol ?df' ''path'' = getcol df ''path''" "getcol ?df' ''tag'' = getcol df ''tag''"
    "getcol ?df' ''reference_energy'' = getcol df ''reference_energy''"
    by (simp_all add: getcol_without_file)
  have p: "''path'' \<in> set (columns ?df')" using assms(2) by simp
  have "process_csv to_path resolve' read_csv' path_to_csv' =
        (case (case getcol df ''path'' of Inl e \<Rightarrow> Inl e | Inr col \<Rightarrow> collect (Path to_path) col) of
           Inl e \<Rightarrow> Inl e
         | Inr paths \<Rightarrow>
             (case getcol df ''tag'' of
                Inl e \<Rightarrow> Inl e
              | Inr tags \<Rightarrow>
                  (case getcol df ''reference_energy'' of
                     Inl e \<Rightarrow> Inl e
                   | Inr energies \<Rightarrow> Inr (paths, tags, energies))))"
    unfolding process_csv_def assms(4) sum.case if_P[OF p] g ..
  moreover have "process_csv to_path resolve read_csv path_to_csv =
        (case (case getcol df ''path'' of Inl e \<Rightarrow> Inl e | Inr col \<Rightarrow> collect (Path to_path) col) of
           Inl e \<Rightarrow> Inl e
         | Inr paths \<Rightarrow>
             (case getcol df ''tag'' of
                Inl e \<Rightarrow> Inl e
              | Inr tags \<Rightarrow>
                  (case getcol df ''reference_energy'' of
                     Inl e \<Rightarrow> Inl e
                   | Inr energies \<Rightarrow> Inr (paths, tags, energies))))"
    unfolding process_csv_def assms(1) sum.case if_P[OF assms(2)] ..
  ultimately have 1: "process_csv to_path resolve read_csv path_to_csv =
         process_csv to_path resolve' read_csv' path_to_csv'" by simp
  have 2: "''tag'' \<in> set (columns df) \<longrightarrow> ''reference_energy'' \<in> set (columns df) \<longrightarrow>
            map (\<lambda>r. r ''path'') (rows df) = map Str names \<longrightarrow>
            process_csv to_path resolve read_csv path_to_csv =
              Inr (map to_path names,
                   map (\<lambda>r. r ''tag'') (rows df),
                   map (\<lambda>r. r ''reference_energy'') (rows df))"
    using assms(1,2) by (simp add: process_csv_def getcol_def collect_Path_strs)
  from 1 2 show ?thesis by simp
qed

theorem process_csv_path_column_wins_witness:
  "process_csv (\<lambda>s. \<lparr>is_absolute = False, components = [s]\<rparr>)
     (\<lambda>p. \<lparr>is_absolute = True, components = ''home'' # components p\<rparr>)
     (\<lambda>p. Inr \<lparr>columns = [''path'', ''file'', ''tag'', ''reference_energy''],
                 rows = [(\<lambda>c. if c = ''path'' then Str ''a.xyz'' else if c = ''file'' then Str ''other.xyz''
                               else if c = ''tag'' then Str ''dimer'' else Num 1)]\<rparr>)
     \<lparr>is_absolute = False, components = [''data'', ''energies.csv'']\<rparr> =
   Inr ([\<lparr>is_absolute = False, components = [''a.xyz'']\<rparr>], [Str ''dimer''], [Num 1])"
proof -
  let ?tp = "\<lambda>s. \<lparr>is_absolute = False, components = [s]\<rparr>"
  let ?res = "\<lambda>p. \<lparr>is_absolute = True, components = ''home'' # components p\<rparr>"
  let ?csv = "\<lparr>is_absolute = False, components = [''data'', ''energies.csv'']\<rparr>"
  let ?df = "\<lparr>columns = [''path'', ''file'', ''tag'', ''reference_energy''],
                 rows = [(\<lambda>c. if c = ''path'' then Str ''a.xyz'' else if c = ''file'' then Str ''other.xyz''
                               else if c = ''tag'' then Str ''dimer'' else Num 1)]\<rparr>"
  let ?df' = "?df\<lparr>columns := removeAll ''file'' (columns ?df),
                  rows := map (\<lambda>r. r(''file'' := Num 0)) (rows ?df)\<rparr>"
  have r: "(\<lambda>p :: ppath. Inr ?df :: error + dataframe) ?csv = Inr ?df" by simp
  have r': "(\<lambda>p :: ppath. Inr ?df' :: error + dataframe) ?csv = Inr ?df'" by simp
  have c: "''path'' \<in> set (columns ?df)" "''file'' \<in> set (columns ?df)"
    "''tag'' \<in> set (columns ?df)" "''reference_energy'' \<in> set (columns ?df)" by simp_all
  have n: "map (\<lambda>r. r ''path'') (rows ?df) = map Str [''a.xyz'']" by simp
  from process_csv_path_column_wins[where read_csv="\<lambda>p. Inr ?df" and df="?df"
         and read_csv'="\<lambda>p. Inr ?df'" and other="\<lambda>r. Num 0" and path_to_csv'="?csv"
         and to_path="?tp" and resolve="?res" and resolve'="?res" and names="[''a.xyz'']",
         OF r c(1,2) r', THEN conjunct2, THEN mp, THEN mp, THEN mp, OF c(3,4) n]
  show ?thesis by simp
qed

end
